theory Spec2Isabelle
  imports
    Main
    "HOL-Library.Word"
    "HOL-Library.AList"
    "HOL-Library.Char_ord"
    "HOL-Library.List_Lexorder"
begin

section \<open>The constrained file store of go-share (package storage)\<close>

text \<open>
  The embedding follows \<^verbatim>\<open>storage.go\<close> (the second file of src/main.go). Every exported
  method of \<^verbatim>\<open>directory\<close> and the internal \<^verbatim>\<open>remove\<close> is one HOL function from the store
  before the call to the store after it. A call is taken as one atomic step: the store's
  lock and the list's lock are released on every path of every method, so they carry no
  state from one call to the next and are not represented. The lock embedded in a
  \<^verbatim>\<open>Constraints\<close> value is different: \<^verbatim>\<open>Serve\<close> leaves it read-locked on one of its return
  paths, so the number of read locks held on a record is part of the state.

  What the code reaches through the Go library is a parameter or a small model here:
  the wall clock (\<^verbatim>\<open>time.Now()\<close>) is the argument \<open>now\<close> of each call, the backing
  directory is a map from entry names to file contents, and the outcome of the operating
  system calls that can fail for reasons outside the store is an argument as well.
\<close>

subsection \<open>Time\<close>

text \<open>
  A \<^verbatim>\<open>time.Time\<close> is an instant, here the number of nanoseconds since the zero time, so
  that \<^verbatim>\<open>t.IsZero()\<close> is \<open>t = 0\<close> and \<^verbatim>\<open>t.Before(u)\<close> is \<open>t < u\<close>. \<^verbatim>\<open>t.Sub(u)\<close> is a
  \<^verbatim>\<open>time.Duration\<close>, a signed 64-bit count of nanoseconds, and saturates.
\<close>

type_synonym time = int

definition time_Sub :: "time \<Rightarrow> time \<Rightarrow> int" where
  "time_Sub t u =
     (if t - u > 2 ^ 63 - 1 then 2 ^ 63 - 1
      else if t - u < - (2 ^ 63) then - (2 ^ 63)
      else t - u)"

subsection \<open>Constraints\<close>

text \<open>
  \<^verbatim>\<open>type Constraints struct { sync.RWMutex; Expire time.Time; Downloads int;
  Public bool; Delete bool }\<close>. The field \<open>RWMutex\<close> is the number of read locks held on
  the record when no call is in progress. \<^verbatim>\<open>Downloads\<close> is a Go \<^verbatim>\<open>int\<close>; the only
  arithmetic on it is the decrement of a value above 1, which cannot overflow, so it is
  an unbounded integer here.
\<close>

record Constraints =
  RWMutex :: nat
  Expire :: time
  Downloads :: int
  Public :: bool
  Delete :: bool

text \<open>\<^verbatim>\<open>return !c.Expire.IsZero() && c.Expire.Before(time.Now())\<close>\<close>

definition expired :: "Constraints \<Rightarrow> time \<Rightarrow> bool" where
  "expired c now \<longleftrightarrow> Expire c \<noteq> 0 \<and> Expire c < now"

subsection \<open>The store\<close>

type_synonym bytes = "8 word list"

text \<open>
  \<^verbatim>\<open>type list struct { sync.RWMutex; dirty bool; slice []string }\<close>
\<close>

record file_list =
  dirty :: bool
  slice :: "string list"

text \<open>
  \<^verbatim>\<open>type directory struct { sync.RWMutex; name string; files map[string]*Constraints; list }\<close>.
  The Go map is an association list read with \<open>map_of\<close> and written with
  \<open>AList.update\<close> and \<open>AList.delete\<close>; its order stands for the unspecified iteration
  order of \<^verbatim>\<open>range\<close>. Each name maps to its own \<^verbatim>\<open>Constraints\<close> value (\<^verbatim>\<open>Add\<close> stores the
  address of its own copy of the argument), so the record is stored in the map itself.

  The last two fields are not fields of the Go struct. \<open>disk\<close> is the content of the
  backing directory: \<open>disk d n\<close> is the content of the regular file reached by
  \<^verbatim>\<open>path.Join(d.name, n)\<close>. \<open>timers\<close> lists the pending \<^verbatim>\<open>time.AfterFunc\<close> calls, each
  with its duration and the name its callback will pass to \<^verbatim>\<open>remove\<close>.
\<close>

record directory =
  name :: string
  files :: "(string \<times> Constraints) list"
  list' :: file_list
  disk :: "string \<rightharpoonup> bytes"
  timers :: "(int \<times> string) list"

datatype errno = EEXIST | EISDIR | EIO

datatype error =
    InvalidFileName
  | OpenError errno
  | CopyError
  | FileNotStored
  | FileRecentlyExpired
  | DownloadLimitExceeded

subsection \<open>Library functions the store calls\<close>

text \<open>
  \<^verbatim>\<open>path.Base\<close> of the Go library: the empty path gives \<^verbatim>\<open>"."\<close>; trailing slashes are
  stripped; what follows the last remaining slash is kept; a path of slashes only
  gives \<^verbatim>\<open>"/"\<close>.
\<close>

definition path_Base :: "string \<Rightarrow> string" where
  "path_Base p =
     (if p = [] then ''.''
      else let p1 = rev (dropWhile (\<lambda>c. c = CHR ''/'') (rev p));
               p2 = rev (takeWhile (\<lambda>c. c \<noteq> CHR ''/'') (rev p1))
           in if p2 = [] then ''/'' else p2)"

text \<open>
  \<^verbatim>\<open>path.Join(d.name, n)\<close> cleans the joined path, so for the names \<^verbatim>\<open>"/"\<close>, \<^verbatim>\<open>"."\<close> and
  \<^verbatim>\<open>".."\<close> it is the backing directory itself or its parent, never a file inside it.
\<close>

definition names_directory :: "string \<Rightarrow> bool" where
  "names_directory n \<longleftrightarrow> n = ''/'' \<or> n = ''.'' \<or> n = ''..''"

text \<open>
  \<^verbatim>\<open>os.OpenFile(path, O_CREATE|O_TRUNC|O_WRONLY [|O_EXCL], 0666)\<close>. Opening a directory
  for writing fails; with \<^verbatim>\<open>O_EXCL\<close> an existing file makes the call fail; \<open>fails\<close> says
  that the operating system refuses the call for another reason. On success the file
  exists and is empty.
\<close>

definition os_OpenFile :: "(string \<rightharpoonup> bytes) \<Rightarrow> string \<Rightarrow> bool \<Rightarrow> bool \<Rightarrow> error + (string \<rightharpoonup> bytes)" where
  "os_OpenFile dk n excl fails =
     (if names_directory n then Inl (OpenError (if excl then EEXIST else EISDIR))
      else if excl \<and> dk n \<noteq> None then Inl (OpenError EEXIST)
      else if fails then Inl (OpenError EIO)
      else Inr (dk(n \<mapsto> [])))"

text \<open>
  \<^verbatim>\<open>io.Copy(f, file)\<close> writes the content of the reader to the opened file. \<open>Some k\<close>
  says that reading or writing fails after \<open>k\<close> bytes, which stay in the file.
\<close>

definition io_Copy :: "(string \<rightharpoonup> bytes) \<Rightarrow> string \<Rightarrow> bytes \<Rightarrow> nat option \<Rightarrow> error option \<times> (string \<rightharpoonup> bytes)" where
  "io_Copy dk n content fails =
     (case fails of
        None \<Rightarrow> (None, dk(n \<mapsto> content))
      | Some k \<Rightarrow> (Some CopyError, dk(n \<mapsto> take k content)))"

text \<open>
  \<^verbatim>\<open>os.Remove(path)\<close> unlinks the file; it fails when there is no such file, when the
  path is a directory that cannot be removed, or when \<open>fails\<close> says so. The store only
  logs the error, so the model returns the directory content alone.
\<close>

definition os_Remove :: "(string \<rightharpoonup> bytes) \<Rightarrow> string \<Rightarrow> bool \<Rightarrow> (string \<rightharpoonup> bytes)" where
  "os_Remove dk n fails = (if fails \<or> names_directory n then dk else dk(n := None))"

text \<open>
  What \<^verbatim>\<open>http.ServeFile\<close> reads of the \<^verbatim>\<open>*http.Request\<close> it is given: the path of the
  URL, and whether the request asks for the whole file. \<open>whole\<close> is false when the
  method is not \<^verbatim>\<open>GET\<close> or when a \<^verbatim>\<open>Range\<close> or a conditional header makes the library
  send a part of the file or no body at all.
\<close>

record request =
  URL_Path :: string
  whole :: bool

text \<open>What \<^verbatim>\<open>http.ServeFile\<close> writes to the \<^verbatim>\<open>http.ResponseWriter\<close>.\<close>

datatype reply =
    BadRequest
  | Redirect
  | NotFoundPage
  | PartOrNoBody
  | Whole bytes

text \<open>
  \<^verbatim>\<open>strings.FieldsFunc(v, isSlashRune)\<close>: the pieces of \<open>v\<close> between slashes and
  backslashes, empty pieces dropped. The first argument is the piece being read.
\<close>

definition isSlashRune :: "char \<Rightarrow> bool" where
  "isSlashRune c \<longleftrightarrow> c = CHR ''/'' \<or> c = CHR 0x5C"

fun FieldsFunc :: "string \<Rightarrow> string \<Rightarrow> string list" where
  "FieldsFunc cur [] = (if cur = [] then [] else [cur])"
| "FieldsFunc cur (c # cs) =
     (if isSlashRune c then (if cur = [] then [] else [cur]) @ FieldsFunc [] cs
      else FieldsFunc (cur @ [c]) cs)"

text \<open>
  \<^verbatim>\<open>containsDotDot\<close> of net/http: some piece of the path is \<^verbatim>\<open>".."\<close>. (The Go function
  first tests whether \<^verbatim>\<open>".."\<close> occurs at all, a shortcut with the same result.)
\<close>

definition containsDotDot :: "string \<Rightarrow> bool" where
  "containsDotDot v \<longleftrightarrow> ''..'' \<in> set (FieldsFunc [] v)"

text \<open>\<^verbatim>\<open>strings.HasSuffix(s, suffix)\<close>\<close>

definition HasSuffix :: "string \<Rightarrow> string \<Rightarrow> bool" where
  "HasSuffix s suf \<longleftrightarrow> length suf \<le> length s \<and> drop (length s - length suf) s = suf"

text \<open>
  \<^verbatim>\<open>http.ServeFile(w, r, path)\<close>. A request whose URL path has a \<^verbatim>\<open>".."\<close> piece is
  refused; a request whose URL path ends in \<^verbatim>\<open>"/index.html"\<close> is redirected to
  \<^verbatim>\<open>"./"\<close>; in both cases the file is not opened. Otherwise the reply is a not-found
  page when there is no such file, and the file, or the part of it the request asks
  for, when there is one. In every case \<^verbatim>\<open>Serve\<close> goes on and returns \<^verbatim>\<open>nil\<close>.
\<close>

definition http_ServeFile :: "request \<Rightarrow> (string \<rightharpoonup> bytes) \<Rightarrow> string \<Rightarrow> reply" where
  "http_ServeFile r dk n =
     (if containsDotDot (URL_Path r) then BadRequest
      else if HasSuffix (URL_Path r) ''/index.html'' then Redirect
      else case dk n of
             None \<Rightarrow> NotFoundPage
           | Some b \<Rightarrow> if whole r then Whole b else PartOrNoBody)"

text \<open>The outcome of the system calls of one \<^verbatim>\<open>Add\<close>.\<close>

record io_env =
  open_err :: bool
  copy_err :: "nat option"

subsection \<open>Add\<close>

text \<open>
  \<^verbatim>\<open>func (d *directory) Add(file io.Reader, name string, c Constraints) error\<close>.
  The result is the returned error (\<open>None\<close> for \<^verbatim>\<open>nil\<close>) and the store after the call.
\<close>

definition Add :: "directory \<Rightarrow> io_env \<Rightarrow> bytes \<Rightarrow> string \<Rightarrow> Constraints \<Rightarrow> time \<Rightarrow> error option \<times> directory" where
  "Add d io file n c now =
     (if path_Base n \<noteq> n then (Some InvalidFileName, d)
      else
        case os_OpenFile (disk d) n (map_of (files d) n = None) (open_err io) of
          Inl e \<Rightarrow> (Some e, d)
        | Inr dk \<Rightarrow>
            (case io_Copy dk n file (copy_err io) of
               (Some e, dk') \<Rightarrow> (Some e, d\<lparr>disk := dk'\<rparr>)
             | (None, dk') \<Rightarrow>
                 (None,
                  d\<lparr>files := AList.update n c (files d),
                    list' := (if Public c then (list' d)\<lparr>dirty := True\<rparr> else list' d),
                    disk := dk',
                    timers := (if Expire c \<noteq> 0
                               then timers d @ [(time_Sub (Expire c) now, n)]
                               else timers d)\<rparr>)))"

subsection \<open>remove and Remove\<close>

text \<open>
  \<^verbatim>\<open>func (d *directory) remove(name string)\<close>, the callback of the expiration timer and
  the deferred call of \<^verbatim>\<open>Serve\<close>. \<^verbatim>\<open>constraints.Lock()\<close> waits until no read lock is held
  on the record; when one was left behind the call never returns, which is \<open>None\<close>.
  \<open>unlink_err\<close> is the outcome of \<^verbatim>\<open>os.Remove\<close>.
\<close>

definition remove :: "directory \<Rightarrow> bool \<Rightarrow> string \<Rightarrow> time \<Rightarrow> directory option" where
  "remove d unlink_err n now =
     (case map_of (files d) n of
        None \<Rightarrow> Some d
      | Some c \<Rightarrow>
          if RWMutex c \<noteq> 0 then None
          else if Downloads c \<noteq> - 1 \<and> \<not> expired c now then Some d
          else Some (d\<lparr>disk := (if Delete c then os_Remove (disk d) n unlink_err else disk d),
                       list' := (if Public c then (list' d)\<lparr>dirty := True\<rparr> else list' d),
                       files := AList.delete n (files d)\<rparr>))"

text \<open>\<^verbatim>\<open>func (d *directory) Remove(name string)\<close>\<close>

definition Remove :: "directory \<Rightarrow> string \<Rightarrow> directory" where
  "Remove d n =
     d\<lparr>list' := (case map_of (files d) n of
                   Some c \<Rightarrow> if Public c then (list' d)\<lparr>dirty := True\<rparr> else list' d
                 | None \<Rightarrow> list' d),
       files := AList.delete n (files d)\<rparr>"

subsection \<open>List\<close>

text \<open>
  The body of the loop of \<^verbatim>\<open>List\<close> when the flag is set: the names of the public
  records are collected, sorted with \<^verbatim>\<open>sort.Strings\<close> (bytewise order) and the flag is
  cleared.
\<close>

definition rebuild :: "directory \<Rightarrow> directory" where
  "rebuild d =
     d\<lparr>list' := \<lparr>dirty = False,
                  slice = sort (map fst (filter (\<lambda>(n, c). Public c) (files d)))\<rparr>\<rparr>"

text \<open>\<^verbatim>\<open>for d.list.dirty { ... }\<close>\<close>

function List_loop :: "directory \<Rightarrow> directory" where
  "List_loop d = (if dirty (list' d) then List_loop (rebuild d) else d)"
  by pat_completeness auto
termination
  by (relation "measure (\<lambda>d. if dirty (list' d) then 1 else 0)") (auto simp: rebuild_def)

text \<open>\<^verbatim>\<open>func (d *directory) List() []string\<close>: the returned copy and the store.\<close>

definition List :: "directory \<Rightarrow> string list \<times> directory" where
  "List d = (let d' = List_loop d in (slice (list' d'), d'))"

subsection \<open>Serve\<close>

text \<open>
  \<^verbatim>\<open>func (d *directory) Serve(w http.ResponseWriter, r *http.Request, name string) error\<close>.
  The result is \<open>None\<close> when the call never returns; otherwise the error, or what
  \<^verbatim>\<open>http.ServeFile\<close> replied, and the store after the call and after the deferred \<^verbatim>\<open>remove\<close>.

  The return on an expired record comes after \<^verbatim>\<open>constraints.RLock()\<close> and has no
  \<^verbatim>\<open>RUnlock()\<close>: the record keeps one more read lock. With a positive counter the read
  lock is given back and \<^verbatim>\<open>constraints.Lock()\<close> is taken, which never returns when a
  read lock was left behind. The deferred \<^verbatim>\<open>remove\<close> runs after \<^verbatim>\<open>constraints.Unlock()\<close>.
\<close>

definition Serve :: "directory \<Rightarrow> request \<Rightarrow> bool \<Rightarrow> string \<Rightarrow> time \<Rightarrow> ((error + reply) \<times> directory) option" where
  "Serve d r unlink_err n now =
     (if CHR ''/'' \<in> set n \<or> n = [] then Some (Inl InvalidFileName, d)
      else
        case map_of (files d) n of
          None \<Rightarrow> Some (Inl FileNotStored, d)
        | Some c \<Rightarrow>
            if expired c now
            then Some (Inl FileRecentlyExpired,
                       d\<lparr>files := AList.update n (c\<lparr>RWMutex := RWMutex c + 1\<rparr>) (files d)\<rparr>)
            else if Downloads c > 0 then
              (if RWMutex c \<noteq> 0 then None
               else if Downloads c = 1 then
                 map_option (\<lambda>d'. (Inr (http_ServeFile r (disk d) n), d'))
                   (remove (d\<lparr>files := AList.update n (c\<lparr>Downloads := - 1\<rparr>) (files d)\<rparr>)
                      unlink_err n now)
               else if Downloads c = - 1 then Some (Inl DownloadLimitExceeded, d)
               else Some (Inr (http_ServeFile r (disk d) n),
                          d\<lparr>files := AList.update n (c\<lparr>Downloads := Downloads c - 1\<rparr>) (files d)\<rparr>))
            else Some (Inr (http_ServeFile r (disk d) n), d))"

text \<open>
  The request \<^verbatim>\<open>ServeHTTP\<close> of package share hands to \<^verbatim>\<open>Serve\<close> together with the name
  \<open>n\<close>: it computes the name as \<^verbatim>\<open>r.URL.Path[1:]\<close>, so the URL path is the name after a
  slash. Here the request is a plain \<^verbatim>\<open>GET\<close> for the whole file.
\<close>

definition request_for :: "string \<Rightarrow> request" where
  "request_for n = \<lparr>URL_Path = CHR ''/'' # n, whole = True\<rparr>"


subsection \<open>Creation and repeated calls\<close>

text \<open>
  \<^verbatim>\<open>NewDirectory\<close>, on its successful return: the store tracks nothing, the list is
  clean and empty, and the backing directory holds whatever it held before (\<open>dk\<close>).
\<close>

definition NewDirectory :: "string \<Rightarrow> (string \<rightharpoonup> bytes) \<Rightarrow> directory" where
  "NewDirectory nm dk =
     \<lparr>name = nm, files = [], list' = \<lparr>dirty = False, slice = []\<rparr>, disk = dk, timers = []\<rparr>"


text \<open>The errors that come from the file system rather than from the store's own checks.\<close>

fun is_io_error :: "error \<Rightarrow> bool" where
  "is_io_error (OpenError _) = True"
| "is_io_error CopyError = True"
| "is_io_error _ = False"

text \<open>The names of the public records, in the order \<^verbatim>\<open>sort.Strings\<close> gives.\<close>

definition public_names :: "directory \<Rightarrow> string list" where
  "public_names d = sort (map fst (filter (\<lambda>(n, c). Public c) (files d)))"

text \<open>
  What the list has to satisfy: unless the dirty flag is set, the cached slice is the
  sorted list of the public names. \<open>store_inv\<close> adds that no name occurs twice in the
  association list, which holds for the keys of a Go map.
\<close>

definition list_ok :: "directory \<Rightarrow> bool" where
  "list_ok d \<longleftrightarrow> dirty (list' d) \<or> slice (list' d) = public_names d"

definition is_public :: "string \<times> Constraints \<Rightarrow> bool" where
  "is_public p = Public (snd p)"

definition store_inv :: "directory \<Rightarrow> bool" where
  "store_inv d \<longleftrightarrow> distinct (map fst (files d)) \<and> list_ok d"

subsection \<open>Concrete stores used in the examples\<close>

definition io_ok :: io_env where
  "io_ok = \<lparr>open_err = False, copy_err = None\<rparr>"

definition store0 :: directory where
  "store0 = NewDirectory ''dir'' Map.empty"

definition one_download :: Constraints where
  "one_download = \<lparr>RWMutex = 0, Expire = 0, Downloads = 1, Public = False, Delete = False\<rparr>"

definition unlimited :: Constraints where
  "unlimited = \<lparr>RWMutex = 0, Expire = 0, Downloads = 0, Public = False, Delete = False\<rparr>"

definition public_file :: Constraints where
  "public_file = \<lparr>RWMutex = 0, Expire = 0, Downloads = 0, Public = True, Delete = False\<rparr>"

definition private_file :: Constraints where
  "private_file = \<lparr>RWMutex = 0, Expire = 0, Downloads = 0, Public = False, Delete = False\<rparr>"

definition delete_file :: Constraints where
  "delete_file = \<lparr>RWMutex = 0, Expire = 0, Downloads = 0, Public = True, Delete = True\<rparr>"

definition expiring :: Constraints where
  "expiring = \<lparr>RWMutex = 0, Expire = 4, Downloads = 0, Public = False, Delete = False\<rparr>"

text \<open>The store \<open>store0\<close> after a successful \<^verbatim>\<open>Add\<close> of the content \<open>[1, 2, 3]\<close> as \<open>a\<close>.\<close>

definition store_with :: "Constraints \<Rightarrow> directory" where
  "store_with c =
     \<lparr>name = ''dir'', files = [(''a'', c)],
      list' = \<lparr>dirty = Public c, slice = []\<rparr>,
      disk = [''a'' \<mapsto> [1, 2, 3]],
      timers = (if Expire c \<noteq> 0 then [(time_Sub (Expire c) 5, ''a'')] else [])\<rparr>"

text \<open>The same store once the record of \<open>a\<close> is gone and its file is still there.\<close>

definition store_without :: directory where
  "store_without =
     \<lparr>name = ''dir'', files = [],
      list' = \<lparr>dirty = False, slice = []\<rparr>,
      disk = [''a'' \<mapsto> [1, 2, 3]],
      timers = []\<rparr>"

text \<open>The store \<open>store_with c\<close> after a \<^verbatim>\<open>List\<close> that found the record of \<open>a\<close> public.\<close>

definition listed_store :: "Constraints \<Rightarrow> directory" where
  "listed_store c = (store_with c)\<lparr>list' := \<lparr>dirty = False, slice = [''a'']\<rparr>\<rparr>"

text \<open>
  The store \<open>store0\<close> after a successful \<^verbatim>\<open>Add\<close> of \<open>[1, 2, 3]\<close> under the name \<open>n\<close>
  with unlimited downloads, and the name made of two dots, a backslash and \<open>a\<close>, which has no slash.
\<close>

definition named_store :: "string \<Rightarrow> directory" where
  "named_store n =
     \<lparr>name = ''dir'', files = [(n, unlimited)],
      list' = \<lparr>dirty = False, slice = []\<rparr>,
      disk = [n \<mapsto> [1, 2, 3]],
      timers = []\<rparr>"

definition backslash_name :: string where
  "backslash_name = [CHR ''.'', CHR ''.'', CHR 0x5C, CHR ''a'']"

section \<open>Properties\<close>

subsection \<open>Auxiliary facts\<close>

declare List_loop.simps [simp del]

lemmas store_defs =
  io_ok_def store0_def NewDirectory_def store_with_def store_without_def
  listed_store_def one_download_def unlimited_def public_file_def private_file_def delete_file_def
  expiring_def named_store_def backslash_name_def request_for_def

text \<open>The names that pass the check of \<^verbatim>\<open>Add\<close>, \<^verbatim>\<open>path.Base(name) == name\<close>.\<close>

lemma path_Base_fixed: "path_Base n = n \<longleftrightarrow> n = ''/'' \<or> (n \<noteq> [] \<and> CHR ''/'' \<notin> set n)"
proof
  assume eq: "path_Base n = n"
  show "n = ''/'' \<or> (n \<noteq> [] \<and> CHR ''/'' \<notin> set n)"
  proof (cases "n = []")
    case True
    with eq show ?thesis by (simp add: path_Base_def)
  next
    case False
    define p1 where "p1 = rev (dropWhile (\<lambda>c. c = CHR ''/'') (rev n))"
    define p2 where "p2 = rev (takeWhile (\<lambda>c. c \<noteq> CHR ''/'') (rev p1))"
    from eq False have r: "(if p2 = [] then ''/'' else p2) = n"
      by (auto simp add: path_Base_def Let_def p1_def p2_def split: if_splits)
    show ?thesis
    proof (cases "p2 = []")
      case True
      with r show ?thesis by simp
    next
      case False
      with r have "n = p2" by simp
      then have "set n \<subseteq> {c. c \<noteq> CHR ''/''}"
        unfolding p2_def using set_takeWhileD by fastforce
      with \<open>n \<noteq> []\<close> show ?thesis by auto
    qed
  qed
next
  assume "n = ''/'' \<or> (n \<noteq> [] \<and> CHR ''/'' \<notin> set n)"
  then show "path_Base n = n"
  proof
    assume "n = ''/''"
    then show ?thesis by (simp add: path_Base_def)
  next
    assume a: "n \<noteq> [] \<and> CHR ''/'' \<notin> set n"
    then have "hd (rev n) \<in> set n" by (simp add: hd_rev)
    with a have "hd (rev n) \<noteq> CHR ''/''" by metis
    then have d: "dropWhile (\<lambda>c. c = CHR ''/'') (rev n) = rev n"
      by (simp add: dropWhile_eq_self_iff)
    from a have t: "takeWhile (\<lambda>c. c \<noteq> CHR ''/'') (rev n) = rev n"
      by (auto simp: takeWhile_eq_all_conv)
    from a show ?thesis by (simp add: path_Base_def Let_def d t)
  qed
qed

text \<open>A successful \<^verbatim>\<open>Add\<close>, written out.\<close>

lemma Add_ok:
  assumes "n \<noteq> []" "CHR ''/'' \<notin> set n" "\<not> names_directory n"
    and "map_of (files d) n = None \<longrightarrow> disk d n = None"
    and "\<not> open_err io" "copy_err io = None"
  shows "Add d io content n c now =
     (None, d\<lparr>files := AList.update n c (files d),
              list' := (if Public c then (list' d)\<lparr>dirty := True\<rparr> else list' d),
              disk := (disk d)(n \<mapsto> content),
              timers := (if Expire c \<noteq> 0 then timers d @ [(time_Sub (Expire c) now, n)]
                         else timers d)\<rparr>)"
proof -
  from assms(1,2) have b: "path_Base n = n" by (simp add: path_Base_fixed)
  from assms(3-5)
  have o: "os_OpenFile (disk d) n (map_of (files d) n = None) (open_err io) = Inr ((disk d)(n \<mapsto> []))"
    by (auto simp: os_OpenFile_def)
  show ?thesis using b o assms(6) by (simp add: Add_def io_Copy_def)
qed

text \<open>Whatever \<^verbatim>\<open>Add\<close> returns with an error, it has left the map, the list and the timers alone.\<close>

lemma Add_error_frame:
  assumes "Add d io content n c now = (Some e, d')"
  shows "files d' = files d \<and> list' d' = list' d \<and> timers d' = timers d"
  using assms
  by (auto simp: Add_def io_Copy_def split: if_splits sum.splits option.splits)

text \<open>The last permitted download: the file is read, then the record is removed.\<close>

lemma Serve_last:
  assumes "n \<noteq> []" "CHR ''/'' \<notin> set n"
    and "map_of (files d) n = Some c" "\<not> expired c now" "Downloads c = 1" "RWMutex c = 0"
  shows "Serve d r u n now =
     Some (Inr (http_ServeFile r (disk d) n),
           d\<lparr>disk := (if Delete c then os_Remove (disk d) n u else disk d),
             list' := (if Public c then (list' d)\<lparr>dirty := True\<rparr> else list' d),
             files := AList.delete n (files d)\<rparr>)"
  using assms
  by (simp add: Serve_def remove_def AList.update_conv' AList.delete_update_same)




text \<open>\<^verbatim>\<open>remove\<close> on a record no read lock was left on.\<close>

lemma remove_unlocked:
  assumes "map_of (files d) n = Some c" "RWMutex c = 0"
  shows "remove d u n now =
     Some (if Downloads c = - 1 \<or> expired c now
           then d\<lparr>disk := (if Delete c then os_Remove (disk d) n u else disk d),
                  list' := (if Public c then (list' d)\<lparr>dirty := True\<rparr> else list' d),
                  files := AList.delete n (files d)\<rparr>
           else d)"
  using assms by (simp add: remove_def)

text \<open>The loop of \<^verbatim>\<open>List\<close> runs its body at most once.\<close>

lemma List_loop_eq: "List_loop d = (if dirty (list' d) then rebuild d else d)"
proof -
  have "List_loop (rebuild d) = rebuild d"
    by (subst List_loop.simps) (simp add: rebuild_def)
  then show ?thesis by (subst List_loop.simps) simp
qed

lemma List_eq:
  "List d = (if dirty (list' d)
             then (public_names d, d\<lparr>list' := \<lparr>dirty = False, slice = public_names d\<rparr>\<rparr>)
             else (slice (list' d), d))"
  by (simp add: List_def List_loop_eq rebuild_def public_names_def)

text \<open>The content of the directory after \<^verbatim>\<open>remove\<close> and after \<^verbatim>\<open>Serve\<close>.\<close>

lemma remove_disk:
  assumes "remove d u n now = Some d'"
  shows "disk d' = disk d \<or>
    (\<exists>c. map_of (files d) n = Some c \<and> Delete c \<and> (Downloads c = - 1 \<or> expired c now)
         \<and> disk d' = os_Remove (disk d) n u)"
proof (cases "map_of (files d) n")
  case None
  with assms show ?thesis by (simp add: remove_def)
next
  case (Some c)
  with assms show ?thesis by (cases "Delete c") (auto simp: remove_def split: if_splits)
qed

lemma Serve_disk:
  assumes "Serve d r u n now = Some (res, d')"
  shows "disk d' = disk d \<or>
    (\<exists>c. map_of (files d) n = Some c \<and> Delete c \<and> Downloads c = 1
         \<and> disk d' = os_Remove (disk d) n u)"
proof (cases "CHR ''/'' \<in> set n \<or> n = []")
  case True
  with assms show ?thesis by (auto simp: Serve_def)
next
  case valid: False
  show ?thesis
  proof (cases "map_of (files d) n")
    case None
    with assms valid show ?thesis by (simp add: Serve_def)
  next
    case (Some c)
    show ?thesis
    proof (cases "\<not> expired c now \<and> Downloads c = 1 \<and> RWMutex c = 0")
      case True
      with valid Some Serve_last [of n d c now r u] assms show ?thesis by auto
    next
      case False
      with assms valid Some show ?thesis
        by (auto simp: Serve_def split: if_splits)
    qed
  qed
qed

lemma os_Remove_gone: "dk x \<noteq> None \<Longrightarrow> os_Remove dk n u x = None \<Longrightarrow> x = n"
  by (auto simp: os_Remove_def split: if_splits)



subsection \<open>One permitted download\<close>




subsection \<open>The listing cache\<close>

text \<open>
  The invariant of the list holds in the new store and is kept by \<^verbatim>\<open>List\<close>, \<^verbatim>\<open>Remove\<close>,
  \<^verbatim>\<open>remove\<close> and \<^verbatim>\<open>Serve\<close>, and by every \<^verbatim>\<open>Add\<close> that does not replace a public
  record by one that is not public.
\<close>

lemma NewDirectory_inv: "store_inv (NewDirectory nm dk)"
  by (simp add: store_inv_def list_ok_def public_names_def NewDirectory_def)

lemma public_names_alt: "public_names d = sort (map fst (filter is_public (files d)))"
proof -
  have "is_public = (\<lambda>(n, c). Public c)" by (auto simp: is_public_def fun_eq_iff)
  then show ?thesis by (simp add: public_names_def)
qed

lemma filter_update_private:
  assumes "\<not> Public c" "\<forall>c0. map_of al n = Some c0 \<longrightarrow> \<not> Public c0"
  shows "filter is_public (AList.update n c al) = filter is_public al"
  using assms by (induction al) (auto simp: is_public_def)

lemma filter_update_same_flag:
  assumes "map_of al n = Some c0" "Public c = Public c0"
  shows "map fst (filter is_public (AList.update n c al)) = map fst (filter is_public al)"
  using assms by (induction al) (auto simp: is_public_def)

lemma filter_delete_private:
  assumes "distinct (map fst al)" "\<forall>c0. map_of al n = Some c0 \<longrightarrow> \<not> Public c0"
  shows "filter is_public (AList.delete n al) = filter is_public al"
  using assms
proof (induction al)
  case Nil
  show ?case by simp
next
  case (Cons p al)
  show ?case
  proof (cases "fst p = n")
    case True
    with Cons.prems have "n \<notin> fst ` set al" "\<not> is_public p"
      by (auto simp: is_public_def)
    with True show ?thesis by (simp add: AList.delete_id)
  next
    case False
    with Cons show ?thesis by (auto simp: is_public_def)
  qed
qed


lemma Remove_inv:
  assumes "store_inv d"
  shows "store_inv (Remove d n)"
proof (cases "\<exists>c. map_of (files d) n = Some c \<and> Public c")
  case True
  with assms show ?thesis
    by (auto simp: store_inv_def list_ok_def Remove_def AList.distinct_delete)
next
  case False
  with assms have "filter is_public (AList.delete n (files d)) = filter is_public (files d)"
    by (intro filter_delete_private) (auto simp: store_inv_def)
  then have "public_names (Remove d n) = public_names d"
    by (simp add: public_names_alt Remove_def)
  with False assms show ?thesis
    by (auto simp: store_inv_def list_ok_def Remove_def AList.distinct_delete split: option.splits)
qed

lemma remove_inv:
  assumes "store_inv d" "remove d u n now = Some d'"
  shows "store_inv d'"
proof (cases "map_of (files d) n")
  case None
  with assms show ?thesis by (simp add: remove_def)
next
  case (Some c)
  show ?thesis
  proof (cases "Public c")
    case True
    with assms Some show ?thesis
      by (auto simp: store_inv_def list_ok_def remove_def AList.distinct_delete split: if_splits)
  next
    case False
    with assms Some have "filter is_public (AList.delete n (files d)) = filter is_public (files d)"
      by (intro filter_delete_private) (auto simp: store_inv_def)
    with False assms Some show ?thesis
      by (auto simp: store_inv_def list_ok_def public_names_alt remove_def AList.distinct_delete
          split: if_splits)
  qed
qed

lemma List_inv:
  assumes "store_inv d"
  shows "store_inv (snd (List d))" "fst (List d) = public_names d \<or> \<not> dirty (list' d)"
  using assms by (auto simp: store_inv_def list_ok_def List_eq public_names_def)

lemma update_record_inv:
  assumes "store_inv d" "map_of (files d) n = Some c0" "Public c = Public c0"
  shows "store_inv (d\<lparr>files := AList.update n c (files d)\<rparr>)"
  using assms filter_update_same_flag [of "files d" n c0 c]
  by (auto simp: store_inv_def list_ok_def public_names_alt AList.distinct_update)

lemma Serve_inv:
  assumes "store_inv d" "Serve d r u n now = Some (res, d')"
  shows "store_inv d'"
proof (cases "CHR ''/'' \<in> set n \<or> n = []")
  case True
  with assms show ?thesis by (auto simp: Serve_def)
next
  case valid: False
  show ?thesis
  proof (cases "map_of (files d) n")
    case None
    with assms valid show ?thesis by (simp add: Serve_def)
  next
    case (Some c)
    note upd = update_record_inv [OF assms(1) Some]
    show ?thesis
    proof (cases "expired c now")
      case True
      with assms valid Some upd [of "c\<lparr>RWMutex := RWMutex c + 1\<rparr>"] show ?thesis
        by (auto simp: Serve_def)
    next
      case ne: False
      show ?thesis
      proof (cases "Downloads c > 0")
        case False
        with assms valid Some ne show ?thesis by (auto simp: Serve_def)
      next
        case pos: True
        show ?thesis
        proof (cases "Downloads c = 1")
          case True
          with assms valid Some ne pos
          have "remove (d\<lparr>files := AList.update n (c\<lparr>Downloads := - 1\<rparr>) (files d)\<rparr>) u n now = Some d'"
            by (auto simp: Serve_def split: if_splits)
          with upd [of "c\<lparr>Downloads := - 1\<rparr>"] show ?thesis by (auto intro: remove_inv)
        next
          case False
          with assms valid Some ne pos upd [of "c\<lparr>Downloads := Downloads c - 1\<rparr>"] show ?thesis
            by (auto simp: Serve_def split: if_splits)
        qed
      qed
    qed
  qed
qed

lemma Add_inv:
  assumes "store_inv d"
    and "\<forall>c0. map_of (files d) n = Some c0 \<and> Public c0 \<longrightarrow> Public c"
  shows "store_inv (snd (Add d io content n c now))"
proof (cases "fst (Add d io content n c now)")
  case (Some e)
  then have "Add d io content n c now = (Some e, snd (Add d io content n c now))"
    by (simp add: prod_eq_iff)
  from Add_error_frame [OF this] assms(1) show ?thesis
    by (simp add: store_inv_def list_ok_def public_names_def)
next
  case None
  then have f: "files (snd (Add d io content n c now)) = AList.update n c (files d)"
    and l: "list' (snd (Add d io content n c now)) =
            (if Public c then (list' d)\<lparr>dirty := True\<rparr> else list' d)"
    by (auto simp: Add_def io_Copy_def split: if_splits sum.splits option.splits)
  show ?thesis
  proof (cases "Public c")
    case True
    with f l assms(1) show ?thesis
      by (simp add: store_inv_def list_ok_def AList.distinct_update)
  next
    case False
    with assms(2) have "filter is_public (AList.update n c (files d)) = filter is_public (files d)"
      by (intro filter_update_private) auto
    with False f l assms(1) show ?thesis
      by (simp add: store_inv_def list_ok_def public_names_alt AList.distinct_update)
  qed
qed

text \<open>
  Claim C2 at a concrete run. A public file \<open>a\<close> is added and listed, then \<^verbatim>\<open>Add\<close>
  replaces it by a record that is not public. \<^verbatim>\<open>Add\<close> looks at the \<^verbatim>\<open>Public\<close> flag of the
  new record only, so the dirty flag stays false although no tracked record is public
  any more, and \<^verbatim>\<open>List\<close> goes on returning \<open>a\<close>.
\<close>

theorem C2_stale_listing_after_overwrite:
  "Add store0 io_ok [1, 2, 3] ''a'' public_file 5 = (None, store_with public_file)
   \<and> List (store_with public_file) = ([''a''], listed_store public_file)
   \<and> Add (listed_store public_file) io_ok [1, 2, 3] ''a'' private_file 6
        = (None, listed_store private_file)
   \<and> dirty (list' (listed_store private_file)) = False
   \<and> public_names (listed_store private_file) = []
   \<and> List (listed_store private_file) = ([''a''], listed_store private_file)"
  by (simp add: store_defs List_eq public_names_def Add_def path_Base_def os_OpenFile_def
      names_directory_def io_Copy_def)

subsection \<open>The order of the checks of Serve\<close>

text \<open>
  Claim C3, as the code has it. \<^verbatim>\<open>Serve\<close> first rejects the empty name and every name
  with a slash ("Invalid file name"); otherwise it reports "File not stored" when the
  name has no record; otherwise "File recently expired" when the expiration time of
  the record has passed; otherwise, when the counter is not the sentinel \<open>-1\<close>, it
  succeeds with what \<^verbatim>\<open>http.ServeFile\<close> replies (for a positive counter the record's lock
  has to be free, since the counter is changed under the write lock). What happens at
  the sentinel is left open here.
\<close>

theorem C3_serve_priority:
  "(if CHR ''/'' \<in> set n \<or> n = [] then Serve d r u n now = Some (Inl InvalidFileName, d)
    else case map_of (files d) n of
      None \<Rightarrow> Serve d r u n now = Some (Inl FileNotStored, d)
    | Some c \<Rightarrow>
        if expired c now
        then map_option fst (Serve d r u n now) = Some (Inl FileRecentlyExpired)
        else Downloads c \<noteq> - 1 \<and> (0 < Downloads c \<longrightarrow> RWMutex c = 0)
             \<longrightarrow> map_option fst (Serve d r u n now) = Some (Inr (http_ServeFile r (disk d) n)))"
proof (cases "CHR ''/'' \<in> set n \<or> n = []")
  case True
  then show ?thesis by (auto simp: Serve_def)
next
  case valid: False
  show ?thesis
  proof (cases "map_of (files d) n")
    case None
    with valid show ?thesis by (simp add: Serve_def)
  next
    case (Some c)
    show ?thesis
    proof (cases "expired c now")
      case True
      with valid Some show ?thesis by (simp add: Serve_def)
    next
      case False
      with valid Some show ?thesis
        by (simp add: Serve_def remove_def AList.update_conv')
    qed
  qed
qed

theorem C3_serve_priority_witness:
  "Serve store0 (request_for ''a/b'') False ''a/b'' 5 = Some (Inl InvalidFileName, store0)
   \<and> Serve store0 (request_for ''a'') False ''a'' 5 = Some (Inl FileNotStored, store0)
   \<and> Add store0 io_ok [1, 2, 3] ''a'' expiring 5 = (None, store_with expiring)
   \<and> map_option fst (Serve (store_with expiring) (request_for ''a'') False ''a'' 6) = Some (Inl FileRecentlyExpired)
   \<and> map_option fst (Serve (store_with unlimited) (request_for ''a'') False ''a'' 6)
       = Some (Inr (Whole [1, 2, 3]))
   \<and> map_option fst (Serve (store_with one_download) (request_for ''a'') False ''a'' 6)
       = Some (Inr (Whole [1, 2, 3]))"
  using C3_serve_priority [of "''a/b''" store0 "request_for ''a/b''" False 5]
    C3_serve_priority [of "''a''" store0 "request_for ''a''" False 5]
    C3_serve_priority [of "''a''" "store_with expiring" "request_for ''a''" False 6]
    C3_serve_priority [of "''a''" "store_with unlimited" "request_for ''a''" False 6]
    C3_serve_priority [of "''a''" "store_with one_download" "request_for ''a''" False 6]
  by (simp add: store_defs expired_def Add_def path_Base_def os_OpenFile_def
      names_directory_def io_Copy_def time_Sub_def http_ServeFile_def containsDotDot_def
      isSlashRune_def HasSuffix_def)

text \<open>
  The claim's first step fails on the code: the empty name has no record in the new
  store, and \<^verbatim>\<open>Serve\<close> answers "Invalid file name", not "File not stored".
\<close>

theorem C3_invalid_name_counterexample:
  "map_of (files store0) '''' = None
   \<and> Serve store0 (request_for '''') False '''' 5 = Some (Inl InvalidFileName, store0)
   \<and> Serve store0 (request_for '''') False '''' 5 \<noteq> Some (Inl FileNotStored, store0)"
  by (simp add: store_defs Serve_def)

subsection \<open>Unlimited downloads\<close>




subsection \<open>Add: overwriting, exclusive creation, failures\<close>

text \<open>
  Claim C5. \<^verbatim>\<open>Add\<close> with a name the map tracks opens the file without \<^verbatim>\<open>O_EXCL\<close>: when
  the file system accepts the write, the call returns no error, the file holds the new
  content and the map holds the new record, whether or not a file was there. \<^verbatim>\<open>Add\<close>
  with a name the map does not track fails when a file of that name is in the
  directory, and changes nothing; for a name that passes the name check the error is
  the one of the exclusive open.
\<close>

theorem C5_overwrite_tracked_exclusive_untracked:
  "(map_of (files d) n = Some c0 \<and> n \<noteq> [] \<and> CHR ''/'' \<notin> set n \<and> \<not> names_directory n
      \<and> \<not> open_err io \<and> copy_err io = None
      \<longrightarrow> (\<exists>d'. Add d io content n c now = (None, d')
                 \<and> disk d' n = Some content \<and> map_of (files d') n = Some c))
   \<and> (map_of (files d) n = None \<and> disk d n \<noteq> None
      \<longrightarrow> (\<exists>e. Add d io content n c now = (Some e, d)
                 \<and> (path_Base n = n \<longrightarrow> e = OpenError EEXIST)))"
proof (intro conjI impI)
  assume h: "map_of (files d) n = Some c0 \<and> n \<noteq> [] \<and> CHR ''/'' \<notin> set n \<and> \<not> names_directory n
      \<and> \<not> open_err io \<and> copy_err io = None"
  then have "Add d io content n c now =
     (None, d\<lparr>files := AList.update n c (files d),
              list' := (if Public c then (list' d)\<lparr>dirty := True\<rparr> else list' d),
              disk := (disk d)(n \<mapsto> content),
              timers := (if Expire c \<noteq> 0 then timers d @ [(time_Sub (Expire c) now, n)]
                         else timers d)\<rparr>)"
    by (intro Add_ok) simp_all
  then show "\<exists>d'. Add d io content n c now = (None, d')
                 \<and> disk d' n = Some content \<and> map_of (files d') n = Some c"
    by (simp add: AList.update_conv')
next
  assume h: "map_of (files d) n = None \<and> disk d n \<noteq> None"
  then show "\<exists>e. Add d io content n c now = (Some e, d) \<and> (path_Base n = n \<longrightarrow> e = OpenError EEXIST)"
    by (auto simp: Add_def os_OpenFile_def)
qed

theorem C5_overwrite_tracked_exclusive_untracked_witness:
  "(\<exists>d'. Add (store_with unlimited) io_ok [9] ''a'' one_download 6 = (None, d')
          \<and> disk d' ''a'' = Some [9] \<and> map_of (files d') ''a'' = Some one_download)
   \<and> Add store_without io_ok [9] ''a'' one_download 6 = (Some (OpenError EEXIST), store_without)"
  using C5_overwrite_tracked_exclusive_untracked
      [of "store_with unlimited" "''a''" unlimited io_ok "[9]" one_download 6]
    C5_overwrite_tracked_exclusive_untracked
      [of store_without "''a''" unlimited io_ok "[9]" one_download 6]
  by (simp add: store_defs names_directory_def path_Base_def)

text \<open>
  Claim C6. When the name passes the name check and the write to the directory fails,
  at \<^verbatim>\<open>os.OpenFile\<close> or at \<^verbatim>\<open>io.Copy\<close>, \<^verbatim>\<open>Add\<close> returns that error, and the map, the list
  with its dirty flag and the pending timers are what they were before the call.
\<close>

theorem C6_add_io_failure:
  assumes "path_Base n = n"
    and "isl (os_OpenFile (disk d) n (map_of (files d) n = None) (open_err io))
         \<or> copy_err io \<noteq> None"
  shows "\<exists>e d'. Add d io content n c now = (Some e, d') \<and> is_io_error e
           \<and> files d' = files d \<and> list' d' = list' d \<and> timers d' = timers d"
proof (cases "os_OpenFile (disk d) n (map_of (files d) n = None) (open_err io)")
  case (Inl e)
  then have "is_io_error e" by (auto simp: os_OpenFile_def split: if_splits)
  with Inl assms(1) show ?thesis by (simp add: Add_def)
next
  case (Inr dk)
  with assms(2) obtain k where "copy_err io = Some k" by auto
  with Inr assms(1) show ?thesis by (simp add: Add_def io_Copy_def)
qed

theorem C6_add_io_failure_witness:
  "(\<exists>e d'. Add (store_with unlimited) \<lparr>open_err = True, copy_err = None\<rparr> [9, 8] ''a'' delete_file 6
              = (Some e, d') \<and> is_io_error e
        \<and> files d' = files (store_with unlimited) \<and> list' d' = list' (store_with unlimited)
        \<and> timers d' = timers (store_with unlimited))
   \<and> (\<exists>e d'. Add (store_with unlimited) \<lparr>open_err = False, copy_err = Some 1\<rparr> [9, 8] ''a'' delete_file 6
              = (Some e, d') \<and> is_io_error e
        \<and> files d' = files (store_with unlimited) \<and> list' d' = list' (store_with unlimited)
        \<and> timers d' = timers (store_with unlimited))"
  using C6_add_io_failure [of "''a''" "store_with unlimited" "\<lparr>open_err = True, copy_err = None\<rparr>"
      "[9, 8]" delete_file 6]
    C6_add_io_failure [of "''a''" "store_with unlimited" "\<lparr>open_err = False, copy_err = Some 1\<rparr>"
      "[9, 8]" delete_file 6]
  by (simp add: store_defs path_Base_def os_OpenFile_def names_directory_def)

text \<open>
  Claim C7. For the empty name and for every name with a slash, \<^verbatim>\<open>Add\<close> returns an
  error and the store, the directory content and the timers are untouched. The name
  check rejects all of them but the name \<^verbatim>\<open>"/"\<close>, which \<^verbatim>\<open>path.Base\<close> maps to itself; for
  that one the path is the backing directory and the open fails.
\<close>

theorem C7_add_invalid_name:
  assumes "n = [] \<or> CHR ''/'' \<in> set n"
  shows "\<exists>e. Add d io content n c now = (Some e, d)"
proof (cases "path_Base n = n")
  case False
  then show ?thesis by (simp add: Add_def)
next
  case True
  with assms have "n = ''/''" by (auto simp: path_Base_fixed)
  then have "names_directory n" by (simp add: names_directory_def)
  with True show ?thesis by (simp add: Add_def os_OpenFile_def)
qed

theorem C7_add_invalid_name_witness:
  "(\<exists>e. Add (store_with unlimited) io_ok [9] '''' public_file 6 = (Some e, store_with unlimited))
   \<and> (\<exists>e. Add (store_with unlimited) io_ok [9] ''../a'' public_file 6 = (Some e, store_with unlimited))
   \<and> (\<exists>e. Add (store_with unlimited) io_ok [9] ''/'' public_file 6 = (Some e, store_with unlimited))"
  using C7_add_invalid_name [of "''''" "store_with unlimited" io_ok "[9]" public_file 6]
    C7_add_invalid_name [of "''../a''" "store_with unlimited" io_ok "[9]" public_file 6]
    C7_add_invalid_name [of "''/''" "store_with unlimited" io_ok "[9]" public_file 6]
  by simp

subsection \<open>Removal\<close>

text \<open>
  Claim C8. \<^verbatim>\<open>Remove\<close> deletes the record of the name whatever its expiration time and
  its counter are, and leaves every other record alone; it sets the dirty flag exactly
  when the name had a public record, and never touches the cached slice; on a name
  without a record it changes nothing at all, so calling it again is a no-op. It returns
  no error: the Go method has no result.
\<close>

theorem C8_Remove_unconditional_idempotent:
  "map_of (files (Remove d n)) = (map_of (files d))(n := None)
   \<and> list' (Remove d n) =
        (if \<exists>c. map_of (files d) n = Some c \<and> Public c
         then (list' d)\<lparr>dirty := True\<rparr> else list' d)
   \<and> (map_of (files d) n = None \<longrightarrow> Remove d n = d)
   \<and> Remove (Remove d n) n = Remove d n"
proof (intro conjI impI)
  show "map_of (files (Remove d n)) = (map_of (files d))(n := None)"
    by (simp add: Remove_def AList.delete_conv')
  show "list' (Remove d n) =
        (if \<exists>c. map_of (files d) n = Some c \<and> Public c
         then (list' d)\<lparr>dirty := True\<rparr> else list' d)"
    by (auto simp: Remove_def split: option.splits)
  show "Remove (Remove d n) n = Remove d n"
    by (simp add: Remove_def AList.delete_conv' AList.delete_idem)
next
  assume "map_of (files d) n = None"
  then have "n \<notin> fst ` set (files d)" by (simp add: map_of_eq_None_iff)
  with \<open>map_of (files d) n = None\<close> show "Remove d n = d" by (simp add: Remove_def)
qed

theorem C8_Remove_unconditional_idempotent_witness:
  "map_of (files (Remove (store_with public_file) ''a'')) ''a'' = None
   \<and> dirty (list' (Remove (listed_store public_file) ''a''))
   \<and> \<not> dirty (list' (Remove (listed_store private_file) ''a''))
   \<and> map_of (files (listed_store public_file)) ''b'' = None
   \<and> Remove (listed_store public_file) ''b'' = listed_store public_file"
  using C8_Remove_unconditional_idempotent [of "store_with public_file" "''a''"]
    C8_Remove_unconditional_idempotent [of "listed_store public_file" "''a''"]
    C8_Remove_unconditional_idempotent [of "listed_store private_file" "''a''"]
    C8_Remove_unconditional_idempotent [of "listed_store public_file" "''b''"]
  by (simp add: store_defs)

text \<open>
  Claim C9 at a concrete run. A file is added with an expiration time that has passed
  and is requested before its timer runs: \<^verbatim>\<open>Serve\<close> answers "File recently expired" and
  returns with the record still read-locked. When the timer then calls \<^verbatim>\<open>remove\<close>, the
  call waits for that lock for ever (it holds the store's lock meanwhile) and the
  expired record is never deleted. On the same record without the read lock left
  behind, \<^verbatim>\<open>remove\<close> deletes it.
\<close>

theorem C9_remove_blocked_after_expired_serve:
  "Add store0 io_ok [1, 2, 3] ''a'' expiring 5 = (None, store_with expiring)
   \<and> Serve (store_with expiring) (request_for ''a'') False ''a'' 6
        = Some (Inl FileRecentlyExpired, store_with (expiring\<lparr>RWMutex := 1\<rparr>))
   \<and> map_of (files (store_with (expiring\<lparr>RWMutex := 1\<rparr>))) ''a'' = Some (expiring\<lparr>RWMutex := 1\<rparr>)
   \<and> expired (expiring\<lparr>RWMutex := 1\<rparr>) 7
   \<and> remove (store_with (expiring\<lparr>RWMutex := 1\<rparr>)) False ''a'' 7 = None
   \<and> remove (store_with expiring) False ''a'' 7 = Some (store_without\<lparr>timers := [(- 1, ''a'')]\<rparr>)"
  by (simp add: store_defs Add_def Serve_def remove_def path_Base_def os_OpenFile_def
      names_directory_def io_Copy_def expired_def time_Sub_def)

text \<open>
  Claim C10. \<^verbatim>\<open>Remove\<close> leaves the content of the backing directory as it is, also for
  a record whose \<^verbatim>\<open>Delete\<close> flag is set. No file that is in the directory disappears
  through \<^verbatim>\<open>Add\<close> or \<^verbatim>\<open>List\<close> either. A file disappears only in \<^verbatim>\<open>remove\<close>, for the name
  it is called with, when the record has the \<^verbatim>\<open>Delete\<close> flag and is exhausted or
  expired; \<^verbatim>\<open>Serve\<close> makes a file disappear only through the \<^verbatim>\<open>remove\<close> it defers on the
  last permitted download.
\<close>

theorem C10_only_remove_unlinks:
  "disk (Remove d n) = disk d
   \<and> (disk d x \<noteq> None \<longrightarrow> disk (snd (Add d io content n c now)) x \<noteq> None)
   \<and> disk (snd (List d)) = disk d
   \<and> (remove d u n now = Some d' \<and> disk d x \<noteq> None \<and> disk d' x = None
        \<longrightarrow> x = n \<and> (\<exists>c. map_of (files d) n = Some c \<and> Delete c
                              \<and> (Downloads c = - 1 \<or> expired c now)))
   \<and> (Serve d rq u n now = Some (res, d') \<and> disk d x \<noteq> None \<and> disk d' x = None
        \<longrightarrow> x = n \<and> (\<exists>c. map_of (files d) n = Some c \<and> Delete c \<and> Downloads c = 1))"
proof -
  have 1: "disk (Remove d n) = disk d" by (simp add: Remove_def)
  have 2: "disk d x \<noteq> None \<longrightarrow> disk (snd (Add d io content n c now)) x \<noteq> None"
    by (auto simp: Add_def os_OpenFile_def io_Copy_def split: sum.splits option.splits if_splits)
  have 3: "disk (snd (List d)) = disk d" by (simp add: List_eq)
  have 4: "remove d u n now = Some d' \<and> disk d x \<noteq> None \<and> disk d' x = None
        \<longrightarrow> x = n \<and> (\<exists>c. map_of (files d) n = Some c \<and> Delete c
                              \<and> (Downloads c = - 1 \<or> expired c now))"
    using remove_disk [of d u n now d'] os_Remove_gone [of "disk d" x n u] by auto
  have 5: "Serve d rq u n now = Some (res, d') \<and> disk d x \<noteq> None \<and> disk d' x = None
        \<longrightarrow> x = n \<and> (\<exists>c. map_of (files d) n = Some c \<and> Delete c \<and> Downloads c = 1)"
    using Serve_disk [of d rq u n now res d'] os_Remove_gone [of "disk d" x n u] by auto
  from 1 2 3 4 5 show ?thesis by blast
qed

theorem C10_only_remove_unlinks_witness:
  "map_of (files (store_with delete_file)) ''a'' = Some delete_file \<and> Delete delete_file
   \<and> map_of (files (Remove (store_with delete_file) ''a'')) ''a'' = None
   \<and> disk (Remove (store_with delete_file) ''a'') ''a'' = Some [1, 2, 3]
   \<and> disk (snd (Add (store_with delete_file) io_ok [9] ''b'' unlimited 6)) ''a'' = Some [1, 2, 3]
   \<and> disk (store_with (delete_file\<lparr>Downloads := - 1\<rparr>)) ''a'' \<noteq> None
   \<and> remove (store_with (delete_file\<lparr>Downloads := - 1\<rparr>)) False ''a'' 6
        = Some (store0\<lparr>list' := \<lparr>dirty = True, slice = []\<rparr>\<rparr>)
   \<and> Serve (store_with (delete_file\<lparr>Downloads := 1\<rparr>)) (request_for ''a'') False ''a'' 6
        = Some (Inr (Whole [1, 2, 3]), store0\<lparr>list' := \<lparr>dirty = True, slice = []\<rparr>\<rparr>)
   \<and> disk (store0\<lparr>list' := \<lparr>dirty = True, slice = []\<rparr>\<rparr>) ''a'' = None"
  using C10_only_remove_unlinks [where d = "store_with delete_file" and n = "''a''"
      and x = "''a''" and io = io_ok and content = "[9]" and c = unlimited and now = 6
      and u = False and d' = "store0\<lparr>list' := \<lparr>dirty = True, slice = []\<rparr>\<rparr>" and rq = "request_for ''a''"
      and res = "Inr NotFoundPage"]
    C10_only_remove_unlinks [where d = "store_with (delete_file\<lparr>Downloads := - 1\<rparr>)"
      and n = "''a''" and x = "''a''" and io = io_ok and content = "[9]" and c = unlimited
      and now = 6 and u = False and d' = "store0\<lparr>list' := \<lparr>dirty = True, slice = []\<rparr>\<rparr>"
      and rq = "request_for ''a''"
      and res = "Inr NotFoundPage"]
    C10_only_remove_unlinks [where d = "store_with (delete_file\<lparr>Downloads := 1\<rparr>)"
      and n = "''a''" and x = "''a''" and io = io_ok and content = "[9]" and c = unlimited
      and now = 6 and u = False and d' = "store0\<lparr>list' := \<lparr>dirty = True, slice = []\<rparr>\<rparr>"
      and rq = "request_for ''a''" and res = "Inr (Whole [1, 2, 3])"]
  by (simp add: store_defs Add_def Remove_def Serve_def remove_def os_Remove_def os_OpenFile_def
      io_Copy_def path_Base_def names_directory_def http_ServeFile_def expired_def
      containsDotDot_def isSlashRune_def HasSuffix_def)

end
